theory Spec2Isabelle
  imports Main
begin

section \<open>Values, errors and the HTTP collaborators\<close>

text \<open>
  A Go value of type \<^verbatim>\<open>any\<close>, as far as the sinks and sources of this package look at
  it: its dynamic type is \<^verbatim>\<open>int\<close> (the only type \<^verbatim>\<open>HeaderPrinter.Set\<close> asserts),
  \<^verbatim>\<open>string\<close> (what \<^verbatim>\<open>CookieScanner.Get\<close> returns), \<^verbatim>\<open>bool\<close>, the nil interface,
  or any other type, which is carried with the text the verb \<^verbatim>\<open>%s\<close> prints for it.
\<close>

datatype goval =
    GNil
  | GInt int
  | GString string
  | GBool bool
  | GOther string

text \<open>A Go panic, with its message.\<close>

datatype panic = Panic string

text \<open>Decimal digits of a natural number and of an integer, as \<^verbatim>\<open>fmt\<close> prints them.\<close>

fun digit_char :: "nat \<Rightarrow> char" where
  "digit_char n = char_of (48 + n)"

fun show_nat :: "nat \<Rightarrow> string" where
  "show_nat n = (if n < 10 then [digit_char n] else show_nat (n div 10) @ [digit_char (n mod 10)])"

definition show_int :: "int \<Rightarrow> string" where
  "show_int i = (if i < 0 then CHR ''-'' # show_nat (nat (- i)) else show_nat (nat i))"

text \<open>
  \<^verbatim>\<open>fmt.Sprintf("%s", value)\<close>: a string prints as itself; for a type the verb does not
  fit, \<^verbatim>\<open>fmt\<close> prints \<^verbatim>\<open>%!s(type=value)\<close>, and \<^verbatim>\<open>%!s(<nil>)\<close> for the nil interface.
\<close>

fun Sprintf_s :: "goval \<Rightarrow> string" where
  "Sprintf_s (GString s) = s"
| "Sprintf_s (GInt i) = ''%!s(int='' @ show_int i @ '')''"
| "Sprintf_s (GBool b) = ''%!s(bool='' @ (if b then ''true'' else ''false'') @ '')''"
| "Sprintf_s GNil = ''%!s(<nil>)''"
| "Sprintf_s (GOther s) = s"

subsection \<open>http.Header\<close>

text \<open>
  \<^verbatim>\<open>http.Header\<close> is a \<^verbatim>\<open>map[string][]string\<close> whose methods address it by the canonical
  form of the key (\<^verbatim>\<open>textproto.CanonicalMIMEHeaderKey\<close>): a key made of token bytes only
  gets its first letter and every letter after a hyphen in upper case and the others in
  lower case; any other key is left as it is.
\<close>

type_synonym Header = "string \<Rightarrow> string list option"

definition is_lower :: "char \<Rightarrow> bool" where
  "is_lower c = (97 \<le> (of_char c :: nat) \<and> (of_char c :: nat) \<le> 122)"

definition is_upper :: "char \<Rightarrow> bool" where
  "is_upper c = (65 \<le> (of_char c :: nat) \<and> (of_char c :: nat) \<le> 90)"

definition is_digit :: "char \<Rightarrow> bool" where
  "is_digit c = (48 \<le> (of_char c :: nat) \<and> (of_char c :: nat) \<le> 57)"

definition validHeaderFieldByte :: "char \<Rightarrow> bool" where
  "validHeaderFieldByte c = (is_lower c \<or> is_upper c \<or> is_digit c \<or> c \<in> set ''!#$%&*+-.^_`|~'' \<or> c = CHR 0x27)"

definition canonical_byte :: "bool \<Rightarrow> char \<Rightarrow> char" where
  "canonical_byte upper c =
     (if upper \<and> is_lower c then char_of ((of_char c :: nat) - 32)
      else if \<not> upper \<and> is_upper c then char_of ((of_char c :: nat) + 32)
      else c)"

fun canonicalise :: "bool \<Rightarrow> string \<Rightarrow> string" where
  "canonicalise upper [] = []"
| "canonicalise upper (c # cs) =
     canonical_byte upper c # canonicalise (canonical_byte upper c = CHR ''-'') cs"

definition CanonicalMIMEHeaderKey :: "string \<Rightarrow> string" where
  "CanonicalMIMEHeaderKey s = (if list_all validHeaderFieldByte s then canonicalise True s else s)"

definition Header_Set :: "Header \<Rightarrow> string \<Rightarrow> string \<Rightarrow> Header" where
  "Header_Set h key v = h(CanonicalMIMEHeaderKey key \<mapsto> [v])"

definition Header_Add :: "Header \<Rightarrow> string \<Rightarrow> string \<Rightarrow> Header" where
  "Header_Add h key v =
     h(CanonicalMIMEHeaderKey key \<mapsto> (case h (CanonicalMIMEHeaderKey key) of None \<Rightarrow> [] | Some vs \<Rightarrow> vs) @ [v])"

definition Header_Values :: "Header \<Rightarrow> string \<Rightarrow> string list" where
  "Header_Values h key = (case h (CanonicalMIMEHeaderKey key) of None \<Rightarrow> [] | Some vs \<Rightarrow> vs)"


subsection \<open>The response writer\<close>

text \<open>
  \<^verbatim>\<open>http.ResponseWriter\<close> is an interface; the sinks hold any implementation of it. Two
  are modelled. The first is the repository's test double \<^verbatim>\<open>ResponseWriter\<close>: a header
  map, the body written so far and the status code; \<^verbatim>\<open>Header()\<close> returns the map itself
  and \<^verbatim>\<open>WriteHeader\<close> stores the status code, whatever it is.
\<close>

record ResponseWriter =
  header :: Header
  buffer :: string
  status :: int

definition WriteHeader :: "ResponseWriter \<Rightarrow> int \<Rightarrow> panic + ResponseWriter" where
  "WriteHeader w statusCode = Inr (w\<lparr>status := statusCode\<rparr>)"

definition NewResponseWriter :: ResponseWriter where
  "NewResponseWriter = \<lparr>header = Map.empty, buffer = [], status = 200\<rparr>"

text \<open>
  The second is the writer of \<^verbatim>\<open>net/http\<close> (and the recorder of \<^verbatim>\<open>httptest\<close>), which also
  remembers whether the header has been written. Its \<^verbatim>\<open>WriteHeader\<close> returns at once when
  it has; otherwise \<^verbatim>\<open>checkWriteHeaderCode\<close> panics for a code outside 100..999, and an
  accepted code is stored.
\<close>

record http_response = ResponseWriter +
  wroteHeader :: bool

definition checkWriteHeaderCode :: "int \<Rightarrow> panic option" where
  "checkWriteHeaderCode code =
     (if code < 100 \<or> code > 999 then Some (Panic (''invalid WriteHeader code '' @ show_int code))
      else None)"

definition response_WriteHeader :: "http_response \<Rightarrow> int \<Rightarrow> panic + http_response" where
  "response_WriteHeader w code =
     (if wroteHeader w then Inr w
      else (case checkWriteHeaderCode code of
              Some p \<Rightarrow> Inl p
            | None \<Rightarrow> Inr (w\<lparr>status := code, wroteHeader := True\<rparr>)))"

definition NewRecorder :: http_response where
  "NewRecorder = \<lparr>header = Map.empty, buffer = [], status = 200, wroteHeader = False\<rparr>"

section \<open>scanner.go\<close>

subsection \<open>CookieScanner\<close>

text \<open>
  \<^verbatim>\<open>http.Cookie\<close>, with the fields this package touches: \<^verbatim>\<open>CookieScanner.Get\<close> reads the
  name and the value, \<^verbatim>\<open>CookiePrinter.SetField\<close> sets all six.
\<close>

record Cookie =
  Name :: string
  Value :: string
  Path :: string
  Secure :: bool
  SameSite :: int
  RawExpires :: string

text \<open>
  \<^verbatim>\<open>CookieScanner.Get\<close>: the range loop over \<^verbatim>\<open>v.cookies\<close> returns at the first cookie
  whose name is the key, and nil after the loop. The list holds the cookies the pointers
  of \<^verbatim>\<open>[]*http.Cookie\<close> point to.
\<close>

fun CookieScanner_Get :: "Cookie list \<Rightarrow> string \<Rightarrow> goval" where
  "CookieScanner_Get [] key = GNil"
| "CookieScanner_Get (cookie # rest) key =
     (if Name cookie = key then GString (Value cookie) else CookieScanner_Get rest key)"

subsection \<open>PipeScanner\<close>

text \<open>
  A \<^verbatim>\<open>Scanner\<close> (and a \<^verbatim>\<open>Printer\<close>) is a stage: called with the record, it returns an
  error or nil and may have changed what the record pointer refers to and anything else
  it writes to. The state \<open>'s\<close> stands for all of that; nil is \<open>None\<close>.
\<close>

type_synonym ('e, 's) stage = "'s \<Rightarrow> 'e option \<times> 's"

text \<open>\<^verbatim>\<open>PipeScanner.Scan\<close>: the loop returns the first non-nil error, nil after the loop.\<close>

fun PipeScanner_Scan :: "('e, 's) stage list \<Rightarrow> 's \<Rightarrow> 'e option \<times> 's" where
  "PipeScanner_Scan [] v = (None, v)"
| "PipeScanner_Scan (scanner # rest) v =
     (case scanner v of
        (Some err, v') \<Rightarrow> (Some err, v')
      | (None, v') \<Rightarrow> PipeScanner_Scan rest v')"

section \<open>The printers\<close>

text \<open>
  The repository holds two revisions of the printers. The definitions without a suffix
  embed the revision that has \<^verbatim>\<open>JSONPrinter\<close>, the \<^verbatim>\<open>Status\<close> key and the
  \<^verbatim>\<open>cookie-expires\<close> tag; those with the suffix \<open>_plain\<close> embed the revision that has
  none of the three. \<^verbatim>\<open>CookiePrinter.Set\<close> and \<^verbatim>\<open>PipePrinter.Print\<close> read the same in both.
\<close>

subsection \<open>HeaderPrinter\<close>

text \<open>
  \<^verbatim>\<open>HeaderPrinter.Set\<close>: for the key \<^verbatim>\<open>Status\<close> the type assertion \<^verbatim>\<open>value.(int)\<close>
  decides between the call \<^verbatim>\<open>p.w.WriteHeader(code)\<close> and the panic; any other key sets a
  header. The writer is any implementation of the interface: its \<^verbatim>\<open>WriteHeader\<close> is the
  first argument, and a panic of that method is a panic of \<^verbatim>\<open>Set\<close>. \<^verbatim>\<open>Header()\<close> returns
  a map that is not nil, as both writers above do.
\<close>

definition HeaderPrinter_Set ::
  "('z ResponseWriter_scheme \<Rightarrow> int \<Rightarrow> panic + 'z ResponseWriter_scheme)
     \<Rightarrow> 'z ResponseWriter_scheme \<Rightarrow> string \<Rightarrow> goval \<Rightarrow> panic + 'z ResponseWriter_scheme" where
  "HeaderPrinter_Set w_WriteHeader w key val =
     (if key = ''Status'' then
        (case val of
           GInt code \<Rightarrow> w_WriteHeader w code
         | _ \<Rightarrow> Inl (Panic ''expected int for Status header''))
      else Inr (w\<lparr>header := Header_Set (header w) key (Sprintf_s val)\<rparr>))"

text \<open>The revision whose \<^verbatim>\<open>Set\<close> is the one line that sets a header.\<close>

definition HeaderPrinter_Set_plain ::
  "'z ResponseWriter_scheme \<Rightarrow> string \<Rightarrow> goval \<Rightarrow> panic + 'z ResponseWriter_scheme" where
  "HeaderPrinter_Set_plain w key val = Inr (w\<lparr>header := Header_Set (header w) key (Sprintf_s val)\<rparr>)"

subsection \<open>CookiePrinter\<close>

text \<open>
  \<^verbatim>\<open>reflect.StructField\<close>: the field's name and its tag. The tag is the list of its
  \<^verbatim>\<open>key:"value"\<close> pairs in the order they are written; \<^verbatim>\<open>Tag.Lookup\<close> returns the value of
  the first pair with the key, and whether there is one.
\<close>

record StructField =
  FieldName :: string
  Tag :: "(string \<times> string) list"

definition Tag_Lookup :: "(string \<times> string) list \<Rightarrow> string \<Rightarrow> string option" where
  "Tag_Lookup tag key = map_of tag key"

text \<open>The constants of \<^verbatim>\<open>http.SameSite\<close>, an \<^verbatim>\<open>int\<close> that starts at \<^verbatim>\<open>iota + 1\<close>.\<close>

definition SameSiteDefaultMode :: int where "SameSiteDefaultMode = 1"
definition SameSiteLaxMode :: int where "SameSiteLaxMode = 2"
definition SameSiteStrictMode :: int where "SameSiteStrictMode = 3"
definition SameSiteNoneMode :: int where "SameSiteNoneMode = 4"

text \<open>
  \<^verbatim>\<open>http.SetCookie(w, cookie)\<close> adds the cookie's serialisation as one more value of the
  \<^verbatim>\<open>Set-Cookie\<close> header, unless the serialisation is empty. The serialisation is
  \<^verbatim>\<open>Cookie.String\<close> of the standard library, a parameter here.
\<close>

definition http_SetCookie :: "(Cookie \<Rightarrow> string) \<Rightarrow> ResponseWriter \<Rightarrow> Cookie \<Rightarrow> ResponseWriter" where
  "http_SetCookie cookie_String w cookie =
     (if cookie_String cookie \<noteq> [] then
        w\<lparr>header := Header_Add (header w) ''Set-Cookie'' (cookie_String cookie)\<rparr>
      else w)"

text \<open>
  \<^verbatim>\<open>Cookie.String\<close> of \<^verbatim>\<open>net/http\<close> starts with the check of the name: it returns the
  empty string unless \<^verbatim>\<open>isCookieNameValid\<close>, that is unless the name is not empty and
  made of token bytes only (the table of \<^verbatim>\<open>validHeaderFieldByte\<close>). Otherwise it writes
  the name, an equals sign and the rest (the sanitised value and the attributes), which
  is the parameter here.
\<close>

definition isCookieNameValid :: "string \<Rightarrow> bool" where
  "isCookieNameValid raw = (raw \<noteq> [] \<and> list_all validHeaderFieldByte raw)"

definition Cookie_String :: "(Cookie \<Rightarrow> string) \<Rightarrow> Cookie \<Rightarrow> string" where
  "Cookie_String rest c =
     (if \<not> isCookieNameValid (Name c) then [] else Name c @ CHR ''='' # rest c)"

text \<open>\<^verbatim>\<open>CookiePrinter.Set\<close>: the body is the comment \<^verbatim>\<open>// No-op\<close>.\<close>

definition CookiePrinter_Set :: "ResponseWriter \<Rightarrow> string \<Rightarrow> goval \<Rightarrow> ResponseWriter" where
  "CookiePrinter_Set w key val = w"

text \<open>
  \<^verbatim>\<open>CookiePrinter.SetField\<close>: four tag lookups, then one call of \<^verbatim>\<open>http.SetCookie\<close>. The
  variable \<^verbatim>\<open>samesite\<close> keeps its zero value when the tag is absent. The fields of
  \<^verbatim>\<open>http.Cookie\<close> the literal leaves out keep their zero values and are not modelled.
\<close>

definition CookiePrinter_cookie :: "string \<Rightarrow> goval \<Rightarrow> StructField \<Rightarrow> Cookie" where
  "CookiePrinter_cookie key val field =
     (let path = (case Tag_Lookup (Tag field) ''cookie-path'' of Some p \<Rightarrow> p | None \<Rightarrow> ''/'');
          secure = (case Tag_Lookup (Tag field) ''cookie-secure'' of
                      Some securestr \<Rightarrow> securestr = ''true''
                    | None \<Rightarrow> False);
          samesite = (case Tag_Lookup (Tag field) ''cookie-samesite'' of
                        Some samesitestr \<Rightarrow>
                          (if samesitestr = ''lax'' then SameSiteLaxMode
                           else if samesitestr = ''strict'' then SameSiteStrictMode
                           else if samesitestr = ''none'' then SameSiteNoneMode
                           else SameSiteDefaultMode)
                      | None \<Rightarrow> 0);
          expires = (case Tag_Lookup (Tag field) ''cookie-expires'' of Some e \<Rightarrow> e | None \<Rightarrow> []);
          cookieval = Sprintf_s val
      in \<lparr>Name = key, Value = cookieval, Path = path, Secure = secure,
          SameSite = samesite, RawExpires = expires\<rparr>)"

definition CookiePrinter_SetField ::
  "(Cookie \<Rightarrow> string) \<Rightarrow> ResponseWriter \<Rightarrow> string \<Rightarrow> goval \<Rightarrow> StructField \<Rightarrow> ResponseWriter" where
  "CookiePrinter_SetField cookie_String w key val field =
     http_SetCookie cookie_String w (CookiePrinter_cookie key val field)"

definition CookiePrinter_cookie_plain :: "string \<Rightarrow> goval \<Rightarrow> StructField \<Rightarrow> Cookie" where
  "CookiePrinter_cookie_plain key val field =
     (let path = (case Tag_Lookup (Tag field) ''cookie-path'' of Some p \<Rightarrow> p | None \<Rightarrow> ''/'');
          secure = (case Tag_Lookup (Tag field) ''cookie-secure'' of
                      Some securestr \<Rightarrow> securestr = ''true''
                    | None \<Rightarrow> False);
          samesite = (case Tag_Lookup (Tag field) ''cookie-samesite'' of
                        Some samesitestr \<Rightarrow>
                          (if samesitestr = ''lax'' then SameSiteLaxMode
                           else if samesitestr = ''strict'' then SameSiteStrictMode
                           else if samesitestr = ''none'' then SameSiteNoneMode
                           else SameSiteDefaultMode)
                      | None \<Rightarrow> 0);
          cookieval = Sprintf_s val
      in \<lparr>Name = key, Value = cookieval, Path = path, Secure = secure,
          SameSite = samesite, RawExpires = []\<rparr>)"

definition CookiePrinter_SetField_plain ::
  "(Cookie \<Rightarrow> string) \<Rightarrow> ResponseWriter \<Rightarrow> string \<Rightarrow> goval \<Rightarrow> StructField \<Rightarrow> ResponseWriter" where
  "CookiePrinter_SetField_plain cookie_String w key val field =
     http_SetCookie cookie_String w (CookiePrinter_cookie_plain key val field)"

subsection \<open>PipePrinter\<close>

text \<open>\<^verbatim>\<open>PipePrinter.Print\<close>: the same loop as \<^verbatim>\<open>PipeScanner.Scan\<close>, over printers.\<close>

fun PipePrinter_Print :: "('e, 's) stage list \<Rightarrow> 's \<Rightarrow> 'e option \<times> 's" where
  "PipePrinter_Print [] v = (None, v)"
| "PipePrinter_Print (printer # rest) v =
     (case printer v of
        (Some err, v') \<Rightarrow> (Some err, v')
      | (None, v') \<Rightarrow> PipePrinter_Print rest v')"

section \<open>Recording which stages a pipe invokes\<close>

text \<open>
  To state which stages a pipe calls and in which order, the stage with number \<open>i\<close> is
  wrapped so that every call of it appends \<open>i\<close> to a log kept beside the state.
\<close>

definition traced :: "nat \<Rightarrow> ('e, 's) stage \<Rightarrow> ('e, 's \<times> nat list) stage" where
  "traced i f = (\<lambda>(v, log). case f v of (r, v') \<Rightarrow> (r, (v', log @ [i])))"

fun traced_stages :: "nat \<Rightarrow> ('e, 's) stage list \<Rightarrow> ('e, 's \<times> nat list) stage list" where
  "traced_stages i [] = []"
| "traced_stages i (f # fs) = traced i f # traced_stages (Suc i) fs"

section \<open>The transcoding engine\<close>

text \<open>
  The scanners and printers hand their work to the package \<^verbatim>\<open>internal/structende\<close>
  (\<^verbatim>\<open>NewDecoder\<close>, \<^verbatim>\<open>NewEncoder\<close>, \<^verbatim>\<open>DefaultCast\<close>), whose code is not among the source
  files. Its field plan builder, conversion policy and two drivers are modelled below
  from the specification.
\<close>

subsection \<open>Comma-delimited sequences\<close>

text \<open>
  Modelled from the spec: the sequence-of case of the Default Conversion Policy of
  \<^verbatim>\<open>internal/structende\<close> is missing. "raw text is split on a comma delimiter into an
  ordered list of substrings (no escaping support)": every comma ends a substring, so a
  text with \<open>n\<close> commas has \<open>n + 1\<close> substrings.
\<close>

fun split_comma :: "string \<Rightarrow> string list" where
  "split_comma [] = [[]]"
| "split_comma (c # cs) =
     (if c = CHR '','' then [] # split_comma cs
      else (case split_comma cs of
              [] \<Rightarrow> [[c]]
            | x # xs \<Rightarrow> (c # x) # xs))"

text \<open>
  Modelled from the spec: the conversion of a sequence of strings is missing. "each
  substring is independently converted per elementCategory" (the identity for
  scalar-string); "an empty raw value yields an empty sequence, not a one-element
  sequence containing the empty string".
\<close>

definition convert_sequence :: "string \<Rightarrow> string list" where
  "convert_sequence raw = (if raw = [] then [] else split_comma raw)"

text \<open>
  Modelled from the spec: the Encode Driver's formatting of a sequence is missing.
  "format sequences by re-joining formatted elements with the comma delimiter".
\<close>

fun format_sequence :: "string list \<Rightarrow> string" where
  "format_sequence [] = []"
| "format_sequence [x] = x"
| "format_sequence (x # y # ys) = x @ CHR '','' # format_sequence (y # ys)"

subsection \<open>Field plans\<close>

text \<open>
  Modelled from the spec: the Field Descriptor of \<^verbatim>\<open>internal/structende\<close> is missing.
  The category sequence-of carries the category of its elements.
\<close>

datatype typeCategory =
    ScalarInteger
  | ScalarUnsigned
  | ScalarFloat
  | ScalarBoolean
  | ScalarString
  | SequenceOf typeCategory
  | OpaquePassthrough
  | StringParseableCustom

record FieldDescriptor =
  name :: string
  sourceKey :: string
  category :: typeCategory
  attributes :: "(string \<times> string) list"

text \<open>
  Modelled from the spec: a record type as the Field Plan Builder inspects it is missing:
  either a composite with its fields in declaration order, each with its name, declared
  type and tags (tag key and value), or a type that is not a composite.
\<close>

record 'ty FieldDecl =
  declName :: string
  declType :: 'ty
  declTags :: "(string \<times> string) list"

datatype 'ty recordType = Composite "'ty FieldDecl list" | NonComposite

datatype PlanError = NotComposite | FieldTypeNotTranscodable string

text \<open>
  Modelled from the spec: the Field Plan Builder \<^verbatim>\<open>build(recordType, namespace)\<close> is
  missing. "for each [field], reads the tag belonging to namespace; if the tag is absent
  or equals the sentinel skip marker, the field is excluded from this namespace's plan";
  a type that has no category "is a build-time error"; "Collects all secondary tag keys
  matching an attribute-prefix convention into attributes"; "Fails with PlanError if the
  record type is not a composite". The parameters are what the spec leaves open: how a
  declared type is categorised (\<open>None\<close> when it is not transcodable) and the text of the
  skip marker. The attribute prefix is the namespace followed by a hyphen, as in the tags
  \<^verbatim>\<open>cookie-path\<close> and \<^verbatim>\<open>cookie-secure\<close> that \<^verbatim>\<open>CookiePrinter.SetField\<close> reads.
\<close>

definition is_attribute :: "string \<Rightarrow> string \<Rightarrow> bool" where
  "is_attribute namespace tagkey = (take (Suc (length namespace)) tagkey = namespace @ ''-'')"

fun build_fields ::
  "('ty \<Rightarrow> typeCategory option) \<Rightarrow> string \<Rightarrow> string \<Rightarrow> 'ty FieldDecl list \<Rightarrow> PlanError + FieldDescriptor list" where
  "build_fields categorise skip namespace [] = Inr []"
| "build_fields categorise skip namespace (f # fs) =
     (case map_of (declTags f) namespace of
        None \<Rightarrow> build_fields categorise skip namespace fs
      | Some key \<Rightarrow>
          if key = skip then build_fields categorise skip namespace fs
          else (case categorise (declType f) of
                  None \<Rightarrow> Inl (FieldTypeNotTranscodable (declName f))
                | Some c \<Rightarrow>
                    (case build_fields categorise skip namespace fs of
                       Inl e \<Rightarrow> Inl e
                     | Inr ds \<Rightarrow>
                         Inr (\<lparr>name = declName f, sourceKey = key, category = c,
                               attributes = filter (\<lambda>(k, v). is_attribute namespace k) (declTags f)\<rparr> # ds))))"

fun build ::
  "('ty \<Rightarrow> typeCategory option) \<Rightarrow> string \<Rightarrow> 'ty recordType \<Rightarrow> string \<Rightarrow> PlanError + FieldDescriptor list" where
  "build categorise skip NonComposite namespace = Inl NotComposite"
| "build categorise skip (Composite fs) namespace = build_fields categorise skip namespace fs"

subsection \<open>The decode driver\<close>

text \<open>
  Modelled from the spec: the Source capability is missing: \<^verbatim>\<open>get(key)\<close> returns a raw
  value or absent, and the optional \<^verbatim>\<open>cast\<close> "when present fully overrides the Default
  Conversion Policy for that source".
\<close>

record ('raw, 'v, 'c) Source =
  source_get :: "string \<Rightarrow> 'raw option"
  source_cast :: "('raw \<Rightarrow> typeCategory \<Rightarrow> 'c + 'v) option"

datatype 'c DecodeError = ConversionError string string 'c

text \<open>
  Modelled from the spec: the Decode Driver \<^verbatim>\<open>decode(source, recordInstance, plan)\<close> is
  missing. "For each descriptor in plan order: call source.get(descriptor.sourceKey); if
  absent, leave the field at its current (zero) value and continue. Otherwise convert per
  policy (or the source's override), and on success assign into the record's field; on
  conversion failure, stop immediately and return an error identifying the field name,
  the source key, and the underlying cause". The record instance maps each field name to
  the field's value; the default policy is a parameter.
\<close>

definition conversion ::
  "('raw, 'v, 'c) Source \<Rightarrow> ('raw \<Rightarrow> typeCategory \<Rightarrow> 'c + 'v) \<Rightarrow> 'raw \<Rightarrow> typeCategory \<Rightarrow> 'c + 'v" where
  "conversion source policy = (case source_cast source of Some cast \<Rightarrow> cast | None \<Rightarrow> policy)"

fun decode ::
  "('raw, 'v, 'c) Source \<Rightarrow> ('raw \<Rightarrow> typeCategory \<Rightarrow> 'c + 'v) \<Rightarrow> (string \<Rightarrow> 'v) \<Rightarrow> FieldDescriptor list
     \<Rightarrow> 'c DecodeError option \<times> (string \<Rightarrow> 'v)" where
  "decode source policy r [] = (None, r)"
| "decode source policy r (d # plan) =
     (case source_get source (sourceKey d) of
        None \<Rightarrow> decode source policy r plan
      | Some raw \<Rightarrow>
          (case conversion source policy raw (category d) of
             Inl cause \<Rightarrow> (Some (ConversionError (name d) (sourceKey d) cause), r)
           | Inr v \<Rightarrow> decode source policy (r(name d := v)) plan))"

text \<open>
  Modelled from the spec: the boolean case of the Default Conversion Policy is missing.
  "accepts the canonical boolean literal spellings (true/false); anything else is a
  ConversionError".
\<close>

definition convert_boolean :: "string \<Rightarrow> typeCategory \<Rightarrow> string + bool" where
  "convert_boolean raw c =
     (if raw = ''true'' then Inr True
      else if raw = ''false'' then Inr False
      else Inl (''not a boolean literal: '' @ raw))"

subsection \<open>The encode driver\<close>

text \<open>
  Modelled from the spec: the Encode Driver \<^verbatim>\<open>encode(sink, recordInstance, plan)\<close> is
  missing. "For each descriptor in plan order: read the field's current value; format
  [it]. If the sink exposes the field-aware extension, call it with (descriptor.sourceKey,
  value, descriptor); otherwise call the minimal set"; a formatting error is an "immediate
  stop, partial side effects on the sink already performed are not undone". The driver
  returns the calls it makes on the sink, in order, each with the name of the field it
  is made for.
\<close>

datatype 'o SinkCall = SetCall string 'o | SetFieldCall string 'o FieldDescriptor

fun encode ::
  "bool \<Rightarrow> (FieldDescriptor \<Rightarrow> 'v \<Rightarrow> 'c + 'o) \<Rightarrow> (string \<Rightarrow> 'v) \<Rightarrow> FieldDescriptor list
     \<Rightarrow> 'c option \<times> (string \<times> 'o SinkCall) list" where
  "encode has_setField format r [] = (None, [])"
| "encode has_setField format r (d # plan) =
     (case format d (r (name d)) of
        Inl cause \<Rightarrow> (Some cause, [])
      | Inr formatted \<Rightarrow>
          (case encode has_setField format r plan of
             (err, calls) \<Rightarrow>
               (err, (name d, if has_setField then SetFieldCall (sourceKey d) formatted d
                              else SetCall (sourceKey d) formatted) # calls)))"

section \<open>Properties of the scanners\<close>

subsection \<open>CookieScanner.Get\<close>

lemma CookieScanner_Get_append:
  "(\<forall>d \<in> set pre. Name d \<noteq> key) \<Longrightarrow>
   CookieScanner_Get (pre @ rest) key = CookieScanner_Get rest key"
  by (induction pre) auto

lemma CookieScanner_Get_none:
  "(\<forall>d \<in> set cookies. Name d \<noteq> key) \<Longrightarrow> CookieScanner_Get cookies key = GNil"
  by (induction cookies) auto

text \<open>
  C9. For every cookie list and every key, \<^verbatim>\<open>CookieScanner.Get\<close> returns the value of the
  first cookie of the list whose name is the key (a cookie \<open>c\<close> with that name, after a
  prefix of cookies none of which has it), and nil when no cookie of the list has that
  name.
\<close>

theorem CookieScanner_Get_first_match:
  "(cookies = pre @ c # post \<and> (\<forall>d \<in> set pre. Name d \<noteq> key) \<and> Name c = key
      \<longrightarrow> CookieScanner_Get cookies key = GString (Value c))
   \<and> ((\<forall>d \<in> set cookies. Name d \<noteq> key) \<longrightarrow> CookieScanner_Get cookies key = GNil)"
  by (simp add: CookieScanner_Get_append CookieScanner_Get_none)

theorem CookieScanner_Get_first_match_witness:
  "CookieScanner_Get
     [\<lparr>Name = ''lang'', Value = ''en'', Path = ''/'', Secure = False, SameSite = 0, RawExpires = []\<rparr>,
      \<lparr>Name = ''token'', Value = ''first'', Path = ''/'', Secure = False, SameSite = 0, RawExpires = []\<rparr>,
      \<lparr>Name = ''token'', Value = ''second'', Path = ''/'', Secure = False, SameSite = 0, RawExpires = []\<rparr>]
     ''token'' = GString ''first''
   \<and> CookieScanner_Get
     [\<lparr>Name = ''lang'', Value = ''en'', Path = ''/'', Secure = False, SameSite = 0, RawExpires = []\<rparr>]
     ''token'' = GNil"
  using CookieScanner_Get_first_match
    [of "[\<lparr>Name = ''lang'', Value = ''en'', Path = ''/'', Secure = False, SameSite = 0, RawExpires = []\<rparr>,
      \<lparr>Name = ''token'', Value = ''first'', Path = ''/'', Secure = False, SameSite = 0, RawExpires = []\<rparr>,
      \<lparr>Name = ''token'', Value = ''second'', Path = ''/'', Secure = False, SameSite = 0, RawExpires = []\<rparr>]"
      "[\<lparr>Name = ''lang'', Value = ''en'', Path = ''/'', Secure = False, SameSite = 0, RawExpires = []\<rparr>]"
      "\<lparr>Name = ''token'', Value = ''first'', Path = ''/'', Secure = False, SameSite = 0, RawExpires = []\<rparr>"
      "[\<lparr>Name = ''token'', Value = ''second'', Path = ''/'', Secure = False, SameSite = 0, RawExpires = []\<rparr>]"
      "''token''"]
  by simp

subsection \<open>The pipes\<close>

lemma PipePrinter_Print_eq: "PipePrinter_Print stages v = PipeScanner_Scan stages v"
  by (induction stages arbitrary: v) (auto split: prod.splits option.splits)

text \<open>
  The pipe over traced stages, started with the log \<open>l0\<close> and the numbers from \<open>i\<close>:
  the log grows by the numbers of the first \<open>k\<close> stages, each of which was called on
  the state its predecessors left; all but the last returned nil.
\<close>

lemma PipeScanner_Scan_traced:
  "PipeScanner_Scan (traced_stages i stages) (v, l0) = (r, (v', log)) \<Longrightarrow>
   \<exists>k\<le>length stages.
        log = l0 @ [i..<i + k]
      \<and> v' = foldl (\<lambda>x f. snd (f x)) v (take k stages)
      \<and> (\<forall>j<k. fst ((stages ! j) (foldl (\<lambda>x f. snd (f x)) v (take j stages)))
                 = (if Suc j = k then r else None))
      \<and> (r = None \<longrightarrow> k = length stages)
      \<and> (r \<noteq> None \<longrightarrow> 0 < k)"
proof (induction stages arbitrary: i v l0)
  case Nil
  then show ?case by simp
next
  case (Cons f fs)
  obtain r0 v1 where f: "f v = (r0, v1)" by (cases "f v")
  show ?case
  proof (cases r0)
    case (Some e)
    with Cons.prems f have res: "r = Some e" "v' = v1" "log = l0 @ [i]"
      by (simp_all add: traced_def)
    show ?thesis
      by (rule exI [of _ 1]) (simp add: res f Some)
  next
    case None
    with Cons.prems f
    have "PipeScanner_Scan (traced_stages (Suc i) fs) (v1, l0 @ [i]) = (r, (v', log))"
      by (simp add: traced_def)
    from Cons.IH [OF this] obtain k where k: "k \<le> length fs"
      "log = (l0 @ [i]) @ [Suc i..<Suc i + k]"
      "v' = foldl (\<lambda>x f. snd (f x)) v1 (take k fs)"
      "\<forall>j<k. fst ((fs ! j) (foldl (\<lambda>x f. snd (f x)) v1 (take j fs)))
               = (if Suc j = k then r else None)"
      "r = None \<longrightarrow> k = length fs" "r \<noteq> None \<longrightarrow> 0 < k"
      by blast
    have log: "log = l0 @ [i..<i + Suc k]"
      using k(2) by (simp add: upt_conv_Cons)
    have st: "v' = foldl (\<lambda>x f. snd (f x)) v (take (Suc k) (f # fs))"
      using k(3) f by simp
    have each: "\<forall>j<Suc k. fst (((f # fs) ! j) (foldl (\<lambda>x f. snd (f x)) v (take j (f # fs))))
                  = (if Suc j = Suc k then r else None)"
    proof (intro allI impI)
      fix j assume j: "j < Suc k"
      show "fst (((f # fs) ! j) (foldl (\<lambda>x f. snd (f x)) v (take j (f # fs))))
              = (if Suc j = Suc k then r else None)"
      proof (cases j)
        case 0
        then show ?thesis using f None k(6) by auto
      next
        case (Suc j')
        with j have "j' < k" by simp
        with k(4) have "fst ((fs ! j') (foldl (\<lambda>x f. snd (f x)) v1 (take j' fs)))
                          = (if Suc j' = k then r else None)"
          by blast
        then show ?thesis using Suc f by simp
      qed
    qed
    from k(1) log st each k(5) have
      "Suc k \<le> length (f # fs)
       \<and> log = l0 @ [i..<i + Suc k]
       \<and> v' = foldl (\<lambda>x f. snd (f x)) v (take (Suc k) (f # fs))
       \<and> (\<forall>j<Suc k. fst (((f # fs) ! j) (foldl (\<lambda>x f. snd (f x)) v (take j (f # fs))))
                  = (if Suc j = Suc k then r else None))
       \<and> (r = None \<longrightarrow> Suc k = length (f # fs))
       \<and> (r \<noteq> None \<longrightarrow> 0 < Suc k)"
      by simp
    then show ?thesis by (rule exI [of _ "Suc k"])
  qed
qed

text \<open>
  C1. For every list of stages and every record, the pipe (\<^verbatim>\<open>PipeScanner.Scan\<close> and
  \<^verbatim>\<open>PipePrinter.Print\<close>) calls the stages in list order against the same record: the log
  of the calls is \<open>0, 1, ..., k - 1\<close>, and the call of stage \<open>j\<close> gets the record as the
  stages before it left it. Every call but the last returned nil and the pipe returns what
  the last call returned, so an error it returns is the error of the first failing stage
  and no stage after that one was called; it returns nil only when \<open>k\<close> is the number of
  stages, that is when every stage was called and succeeded.
\<close>

theorem pipe_first_failure:
  assumes "pipe = PipeScanner_Scan \<or> pipe = PipePrinter_Print"
    and "pipe (traced_stages 0 stages) (v, []) = (r, (v', log))"
  shows "\<exists>k\<le>length stages.
        log = [0..<k]
      \<and> v' = foldl (\<lambda>x f. snd (f x)) v (take k stages)
      \<and> (\<forall>j<k. fst ((stages ! j) (foldl (\<lambda>x f. snd (f x)) v (take j stages)))
                 = (if Suc j = k then r else None))
      \<and> (r = None \<longrightarrow> k = length stages)
      \<and> (r \<noteq> None \<longrightarrow> 0 < k)"
proof -
  from assms have "PipeScanner_Scan (traced_stages 0 stages) (v, []) = (r, (v', log))"
    by (auto simp: PipePrinter_Print_eq)
  from PipeScanner_Scan_traced [OF this] show ?thesis by simp
qed

theorem pipe_first_failure_witness:
  "PipeScanner_Scan
     (traced_stages 0 [\<lambda>n::nat. (None, n + 1), \<lambda>n. (Some ''boom'', n + 10), \<lambda>n. (None, n + 100)])
     (0, []) = (Some ''boom'', (11, [0, 1]))
   \<and> (\<exists>k\<le>length [\<lambda>n::nat. (None, n + 1), \<lambda>n. (Some ''boom'', n + 10), \<lambda>n. (None, n + 100)].
        [0, 1] = [0..<k]
      \<and> (11::nat) = foldl (\<lambda>x f. snd (f x)) 0
            (take k [\<lambda>n::nat. (None, n + 1), \<lambda>n. (Some ''boom'', n + 10), \<lambda>n. (None, n + 100)])
      \<and> (\<forall>j<k. fst (([\<lambda>n::nat. (None, n + 1), \<lambda>n. (Some ''boom'', n + 10), \<lambda>n. (None, n + 100)] ! j)
                 (foldl (\<lambda>x f. snd (f x)) 0
                    (take j [\<lambda>n::nat. (None, n + 1), \<lambda>n. (Some ''boom'', n + 10), \<lambda>n. (None, n + 100)])))
               = (if Suc j = k then Some ''boom'' else None))
      \<and> 0 < k)
   \<and> PipePrinter_Print
     (traced_stages 0 [\<lambda>n::nat. (None :: string option, n + 1), \<lambda>n. (None, n + 10)])
     (0, []) = (None, (11, [0, 1]))
   \<and> (\<exists>k\<le>length [\<lambda>n::nat. (None :: string option, n + 1), \<lambda>n. (None, n + 10)].
        [0, 1] = [0..<k]
      \<and> k = length [\<lambda>n::nat. (None :: string option, n + 1), \<lambda>n. (None, n + 10)])"
proof -
  let ?stages = "[\<lambda>n::nat. (None, n + 1), \<lambda>n. (Some ''boom'', n + 10), \<lambda>n. (None, n + 100)]"
  let ?printers = "[\<lambda>n::nat. (None :: string option, n + 1), \<lambda>n. (None, n + 10)]"
  have run: "PipeScanner_Scan (traced_stages 0 ?stages) (0, []) = (Some ''boom'', (11, [0, 1]))"
    by (simp add: traced_def)
  have print: "PipePrinter_Print (traced_stages 0 ?printers) (0, []) = (None, (11, [0, 1]))"
    by (simp add: traced_def)
  from pipe_first_failure [OF disjI1 [OF refl] run]
       pipe_first_failure [OF disjI2 [OF refl] print] run print
  show ?thesis by auto
qed

section \<open>Properties of the printers\<close>

subsection \<open>Headers\<close>




lemma Header_Values_Add: "Header_Values (Header_Add h key v) key = Header_Values h key @ [v]"
  by (simp add: Header_Values_def Header_Add_def)


lemma canonical_Set_Cookie: "CanonicalMIMEHeaderKey ''Set-Cookie'' = ''Set-Cookie''"
  by code_simp



subsection \<open>HeaderPrinter.Set\<close>


lemma show_int_examples:
  "show_int 0 = ''0''" "show_int 1000 = ''1000''"
  by code_simp+

text \<open>
  The revision without the \<^verbatim>\<open>Status\<close> branch does the same for every other key; for the
  key \<^verbatim>\<open>Status\<close> it sets a header of that name, whatever the value is.
\<close>

lemma HeaderPrinter_Set_plain_agrees:
  "key \<noteq> ''Status'' \<Longrightarrow> HeaderPrinter_Set_plain w key val = HeaderPrinter_Set w_WriteHeader w key val"
  by (simp add: HeaderPrinter_Set_plain_def HeaderPrinter_Set_def)





text \<open>
  C10, as it is stated, fails: on the writer of \<^verbatim>\<open>net/http\<close>, \<^verbatim>\<open>Set("Status", 0)\<close> has
  the key \<^verbatim>\<open>Status\<close> and an int value, and panics.
\<close>

theorem HeaderPrinter_Set_panics_refuted:
  "HeaderPrinter_Set response_WriteHeader NewRecorder ''Status'' (GInt 0)
     = Inl (Panic ''invalid WriteHeader code 0'')"
  by (simp add: HeaderPrinter_Set_def response_WriteHeader_def checkWriteHeaderCode_def
        NewRecorder_def show_int_examples)

text \<open>
  C10, amended. \<^verbatim>\<open>HeaderPrinter.Set\<close> panics in exactly two cases, both with the key
  \<^verbatim>\<open>Status\<close>: when the dynamic type of the value is not int, with its own message, and
  when the value is an int for which the writer's \<^verbatim>\<open>WriteHeader\<close> panics, with that
  panic. For every other key it returns. The \<^verbatim>\<open>WriteHeader\<close> of the test double never
  panics; the one of \<^verbatim>\<open>net/http\<close> panics exactly for a code outside 100..999 on a
  response whose header has not been written.
\<close>

theorem HeaderPrinter_Set_panics_iff:
  "(HeaderPrinter_Set w_WriteHeader w key val = Inl p \<longleftrightarrow>
      key = ''Status''
      \<and> ((\<forall>code. val \<noteq> GInt code) \<and> p = Panic ''expected int for Status header''
         \<or> (\<exists>code. val = GInt code \<and> w_WriteHeader w code = Inl p)))
   \<and> (\<nexists>q. WriteHeader tw code = Inl q)
   \<and> ((\<exists>q. response_WriteHeader rw code = Inl q) \<longleftrightarrow> \<not> wroteHeader rw \<and> (code < 100 \<or> 999 < code))"
proof (intro conjI)
  show "HeaderPrinter_Set w_WriteHeader w key val = Inl p \<longleftrightarrow>
      key = ''Status''
      \<and> ((\<forall>code. val \<noteq> GInt code) \<and> p = Panic ''expected int for Status header''
         \<or> (\<exists>code. val = GInt code \<and> w_WriteHeader w code = Inl p))"
    by (cases val) (auto simp: HeaderPrinter_Set_def)
  show "\<nexists>q. WriteHeader tw code = Inl q"
    by (simp add: WriteHeader_def)
  show "(\<exists>q. response_WriteHeader rw code = Inl q) \<longleftrightarrow> \<not> wroteHeader rw \<and> (code < 100 \<or> 999 < code)"
    by (auto simp: response_WriteHeader_def checkWriteHeaderCode_def)
qed

theorem HeaderPrinter_Set_panics_iff_witness:
  "HeaderPrinter_Set WriteHeader NewResponseWriter ''Status'' (GString ''200'')
     = Inl (Panic ''expected int for Status header'')
   \<and> (HeaderPrinter_Set WriteHeader NewResponseWriter ''Status'' (GInt 0)
         \<noteq> Inl (Panic ''invalid WriteHeader code 0''))
   \<and> (HeaderPrinter_Set response_WriteHeader NewRecorder ''Status'' (GInt 0)
         = Inl (Panic ''invalid WriteHeader code 0''))
   \<and> (HeaderPrinter_Set response_WriteHeader NewRecorder ''Status'' (GInt 200)
         \<noteq> Inl (Panic ''invalid WriteHeader code 200''))
   \<and> (HeaderPrinter_Set response_WriteHeader NewRecorder ''X-Trace'' (GBool True)
         \<noteq> Inl (Panic ''expected int for Status header''))"
proof -
  have zero: "response_WriteHeader NewRecorder 0 = Inl (Panic ''invalid WriteHeader code 0'')"
    by (simp add: response_WriteHeader_def checkWriteHeaderCode_def NewRecorder_def show_int_examples)
  have ok: "response_WriteHeader NewRecorder 200 \<noteq> Inl (Panic ''invalid WriteHeader code 200'')"
    by (simp add: response_WriteHeader_def checkWriteHeaderCode_def NewRecorder_def)
  from HeaderPrinter_Set_panics_iff
         [of WriteHeader NewResponseWriter "''Status''" "GString ''200''"
             "Panic ''expected int for Status header''" NewResponseWriter 0 NewRecorder]
       HeaderPrinter_Set_panics_iff
         [of WriteHeader NewResponseWriter "''Status''" "GInt 0"
             "Panic ''invalid WriteHeader code 0''" NewResponseWriter 0 NewRecorder]
       HeaderPrinter_Set_panics_iff
         [of response_WriteHeader NewRecorder "''Status''" "GInt 0"
             "Panic ''invalid WriteHeader code 0''" NewResponseWriter 0 NewRecorder]
       HeaderPrinter_Set_panics_iff
         [of response_WriteHeader NewRecorder "''Status''" "GInt 200"
             "Panic ''invalid WriteHeader code 200''" NewResponseWriter 0 NewRecorder]
       HeaderPrinter_Set_panics_iff
         [of response_WriteHeader NewRecorder "''X-Trace''" "GBool True"
             "Panic ''expected int for Status header''" NewResponseWriter 0 NewRecorder]
       zero ok
  show ?thesis by auto
qed

subsection \<open>CookiePrinter\<close>

lemma isCookieNameValid_examples:
  "isCookieNameValid ''token''" "isCookieNameValid ''sid''"
  "\<not> isCookieNameValid ''bad name''" "\<not> isCookieNameValid []"
  by code_simp+

text \<open>
  C6, as it is stated, fails: for a key that is not a valid cookie name \<^verbatim>\<open>Cookie.String\<close>
  is empty, \<^verbatim>\<open>http.SetCookie\<close> adds nothing, and no cookie is emitted.
\<close>

theorem CookiePrinter_SetField_cookie_refuted:
  "Header_Values
     (header (CookiePrinter_SetField (Cookie_String (\<lambda>c. Value c @ ''; Path='' @ Path c))
        NewResponseWriter ''bad name'' (GString ''v'')
        \<lparr>FieldName = ''Bad'', Tag = [(''cookie'', ''bad name'')]\<rparr>))
     ''Set-Cookie'' = []"
  by (simp add: CookiePrinter_SetField_def http_SetCookie_def Cookie_String_def
        CookiePrinter_cookie_def Tag_Lookup_def Let_def isCookieNameValid_examples
        NewResponseWriter_def Header_Values_def)

text \<open>
  C6, amended. \<^verbatim>\<open>CookiePrinter.SetField\<close> makes exactly one call of \<^verbatim>\<open>http.SetCookie\<close>,
  with a cookie that has the key as name and the value's text as value, whose \<^verbatim>\<open>Path\<close> is
  the tag \<^verbatim>\<open>cookie-path\<close> when the field has it and \<^verbatim>\<open>/\<close> otherwise, whose \<^verbatim>\<open>Secure\<close>
  flag is set exactly when the field has the tag \<^verbatim>\<open>cookie-secure\<close> with the value
  \<^verbatim>\<open>true\<close>, and whose \<^verbatim>\<open>RawExpires\<close> is the tag \<^verbatim>\<open>cookie-expires\<close> as it is written when
  the field has it and empty otherwise. The response gains exactly one value of the header
  \<^verbatim>\<open>Set-Cookie\<close> when that cookie's serialisation is not empty and none when it is empty,
  and the serialisation of \<^verbatim>\<open>net/http\<close> is empty exactly when the key is not a valid
  cookie name.
\<close>

theorem CookiePrinter_SetField_cookie:
  "CookiePrinter_SetField cookie_String w key val field
     = http_SetCookie cookie_String w (CookiePrinter_cookie key val field)
   \<and> Name (CookiePrinter_cookie key val field) = key
   \<and> Value (CookiePrinter_cookie key val field) = Sprintf_s val
   \<and> Path (CookiePrinter_cookie key val field)
       = (case Tag_Lookup (Tag field) ''cookie-path'' of Some p \<Rightarrow> p | None \<Rightarrow> ''/'')
   \<and> (Secure (CookiePrinter_cookie key val field)
        \<longleftrightarrow> Tag_Lookup (Tag field) ''cookie-secure'' = Some ''true'')
   \<and> RawExpires (CookiePrinter_cookie key val field)
       = (case Tag_Lookup (Tag field) ''cookie-expires'' of Some e \<Rightarrow> e | None \<Rightarrow> [])
   \<and> Header_Values (header (CookiePrinter_SetField cookie_String w key val field)) ''Set-Cookie''
       = Header_Values (header w) ''Set-Cookie''
           @ (if cookie_String (CookiePrinter_cookie key val field) = [] then []
              else [cookie_String (CookiePrinter_cookie key val field)])
   \<and> (Cookie_String rest (CookiePrinter_cookie key val field) = [] \<longleftrightarrow> \<not> isCookieNameValid key)"
proof -
  have name: "Name (CookiePrinter_cookie key val field) = key"
    by (simp add: CookiePrinter_cookie_def Let_def)
  have attrs: "Value (CookiePrinter_cookie key val field) = Sprintf_s val"
    "Path (CookiePrinter_cookie key val field)
       = (case Tag_Lookup (Tag field) ''cookie-path'' of Some p \<Rightarrow> p | None \<Rightarrow> ''/'')"
    "Secure (CookiePrinter_cookie key val field)
        \<longleftrightarrow> Tag_Lookup (Tag field) ''cookie-secure'' = Some ''true''"
    "RawExpires (CookiePrinter_cookie key val field)
       = (case Tag_Lookup (Tag field) ''cookie-expires'' of Some e \<Rightarrow> e | None \<Rightarrow> [])"
    by (auto simp: CookiePrinter_cookie_def Let_def split: option.splits)
  have call: "CookiePrinter_SetField cookie_String w key val field
     = http_SetCookie cookie_String w (CookiePrinter_cookie key val field)"
    by (simp add: CookiePrinter_SetField_def)
  have emitted: "Header_Values (header (CookiePrinter_SetField cookie_String w key val field)) ''Set-Cookie''
       = Header_Values (header w) ''Set-Cookie''
           @ (if cookie_String (CookiePrinter_cookie key val field) = [] then []
              else [cookie_String (CookiePrinter_cookie key val field)])"
    by (simp add: call http_SetCookie_def Header_Values_Add)
  have dropped: "Cookie_String rest (CookiePrinter_cookie key val field) = [] \<longleftrightarrow> \<not> isCookieNameValid key"
    by (simp add: Cookie_String_def name)
  show ?thesis
    by (intro conjI) (fact call name attrs emitted dropped)+
qed

theorem CookiePrinter_SetField_cookie_witness:
  "Header_Values
     (header (CookiePrinter_SetField (Cookie_String (\<lambda>c. Value c @ ''; Path='' @ Path c))
        NewResponseWriter ''token'' (GString ''access-token'')
        \<lparr>FieldName = ''Token'', Tag = [(''json'', ''-''), (''cookie'', ''token'')]\<rparr>))
     ''Set-Cookie'' = [''token=access-token; Path=/'']
   \<and> Path (CookiePrinter_cookie ''sid'' (GString ''abc'')
        \<lparr>FieldName = ''Session'',
         Tag = [(''cookie'', ''sid''), (''cookie-path'', ''/app''), (''cookie-secure'', ''true''),
                (''cookie-expires'', ''Wed, 21 Oct 2026 07:28:00 GMT'')]\<rparr>) = ''/app''
   \<and> Secure (CookiePrinter_cookie ''sid'' (GString ''abc'')
        \<lparr>FieldName = ''Session'',
         Tag = [(''cookie'', ''sid''), (''cookie-path'', ''/app''), (''cookie-secure'', ''true''),
                (''cookie-expires'', ''Wed, 21 Oct 2026 07:28:00 GMT'')]\<rparr>)
   \<and> RawExpires (CookiePrinter_cookie ''sid'' (GString ''abc'')
        \<lparr>FieldName = ''Session'',
         Tag = [(''cookie'', ''sid''), (''cookie-path'', ''/app''), (''cookie-secure'', ''true''),
                (''cookie-expires'', ''Wed, 21 Oct 2026 07:28:00 GMT'')]\<rparr>)
       = ''Wed, 21 Oct 2026 07:28:00 GMT''"
  using CookiePrinter_SetField_cookie
      [of "Cookie_String (\<lambda>c. Value c @ ''; Path='' @ Path c)" NewResponseWriter "''token''"
          "GString ''access-token''"
          "\<lparr>FieldName = ''Token'', Tag = [(''json'', ''-''), (''cookie'', ''token'')]\<rparr>"
          "\<lambda>c. Value c @ ''; Path='' @ Path c"]
    CookiePrinter_SetField_cookie
      [of "Cookie_String (\<lambda>c. Value c @ ''; Path='' @ Path c)" NewResponseWriter "''sid''"
          "GString ''abc''"
          "\<lparr>FieldName = ''Session'',
         Tag = [(''cookie'', ''sid''), (''cookie-path'', ''/app''), (''cookie-secure'', ''true''),
                (''cookie-expires'', ''Wed, 21 Oct 2026 07:28:00 GMT'')]\<rparr>"
          "\<lambda>c. Value c @ ''; Path='' @ Path c"]
  by (simp add: CookiePrinter_SetField_def http_SetCookie_def Header_Add_def Header_Values_def
        CookiePrinter_cookie_def Tag_Lookup_def Let_def NewResponseWriter_def canonical_Set_Cookie
        Cookie_String_def isCookieNameValid_examples)

text \<open>
  C7. For every field that has the tag \<^verbatim>\<open>cookie-samesite\<close>, the cookie
  \<^verbatim>\<open>CookiePrinter.SetField\<close> hands to \<^verbatim>\<open>http.SetCookie\<close> has the same-site mode Lax for the
  tag value \<^verbatim>\<open>lax\<close>, Strict for \<^verbatim>\<open>strict\<close>, None for \<^verbatim>\<open>none\<close> and the default mode for
  any other value, in both revisions of the printer.
\<close>

theorem CookiePrinter_SetField_samesite:
  assumes "Tag_Lookup (Tag field) ''cookie-samesite'' = Some t"
  shows "(t = ''lax'' \<longrightarrow> SameSite (CookiePrinter_cookie key val field) = SameSiteLaxMode
                       \<and> SameSite (CookiePrinter_cookie_plain key val field) = SameSiteLaxMode)
       \<and> (t = ''strict'' \<longrightarrow> SameSite (CookiePrinter_cookie key val field) = SameSiteStrictMode
                       \<and> SameSite (CookiePrinter_cookie_plain key val field) = SameSiteStrictMode)
       \<and> (t = ''none'' \<longrightarrow> SameSite (CookiePrinter_cookie key val field) = SameSiteNoneMode
                       \<and> SameSite (CookiePrinter_cookie_plain key val field) = SameSiteNoneMode)
       \<and> (t \<noteq> ''lax'' \<and> t \<noteq> ''strict'' \<and> t \<noteq> ''none'' \<longrightarrow>
            SameSite (CookiePrinter_cookie key val field) = SameSiteDefaultMode
          \<and> SameSite (CookiePrinter_cookie_plain key val field) = SameSiteDefaultMode)
       \<and> CookiePrinter_SetField cookie_String w key val field
            = http_SetCookie cookie_String w (CookiePrinter_cookie key val field)
       \<and> CookiePrinter_SetField_plain cookie_String w key val field
            = http_SetCookie cookie_String w (CookiePrinter_cookie_plain key val field)"
  using assms
  by (simp add: CookiePrinter_cookie_def CookiePrinter_cookie_plain_def
        CookiePrinter_SetField_def CookiePrinter_SetField_plain_def Let_def)

theorem CookiePrinter_SetField_samesite_witness:
  "Tag_Lookup [(''cookie'', ''token''), (''cookie-samesite'', ''strict'')] ''cookie-samesite'' = Some ''strict''
   \<and> SameSite (CookiePrinter_cookie ''token'' (GString ''t'')
        \<lparr>FieldName = ''Token'', Tag = [(''cookie'', ''token''), (''cookie-samesite'', ''strict'')]\<rparr>) = 3
   \<and> SameSite (CookiePrinter_cookie_plain ''token'' (GString ''t'')
        \<lparr>FieldName = ''Token'', Tag = [(''cookie'', ''token''), (''cookie-samesite'', ''strict'')]\<rparr>) = 3
   \<and> Tag_Lookup [(''cookie'', ''token''), (''cookie-samesite'', ''Lax'')] ''cookie-samesite'' = Some ''Lax''
   \<and> SameSite (CookiePrinter_cookie ''token'' (GString ''t'')
        \<lparr>FieldName = ''Token'', Tag = [(''cookie'', ''token''), (''cookie-samesite'', ''Lax'')]\<rparr>) = 1"
proof -
  have strict: "Tag_Lookup (Tag \<lparr>FieldName = ''Token'',
      Tag = [(''cookie'', ''token''), (''cookie-samesite'', ''strict'')]\<rparr>) ''cookie-samesite'' = Some ''strict''"
    by (simp add: Tag_Lookup_def)
  have other: "Tag_Lookup (Tag \<lparr>FieldName = ''Token'',
      Tag = [(''cookie'', ''token''), (''cookie-samesite'', ''Lax'')]\<rparr>) ''cookie-samesite'' = Some ''Lax''"
    by (simp add: Tag_Lookup_def)
  from CookiePrinter_SetField_samesite [OF strict, of "''token''" "GString ''t''"]
       CookiePrinter_SetField_samesite [OF other, of "''token''" "GString ''t''"]
       strict other
  show ?thesis
    by (simp add: SameSiteStrictMode_def SameSiteDefaultMode_def)
qed

text \<open>
  C8. For every key and value, \<^verbatim>\<open>CookiePrinter.Set\<close> leaves the response writer as it is:
  its headers, its body and its status. A cookie reaches the response through
  \<^verbatim>\<open>CookiePrinter.SetField\<close>, which changes the values of \<^verbatim>\<open>Set-Cookie\<close> whenever the
  cookie's serialisation is not empty.
\<close>

theorem CookiePrinter_Set_noop:
  "CookiePrinter_Set w key val = w
   \<and> header (CookiePrinter_Set w key val) = header w
   \<and> buffer (CookiePrinter_Set w key val) = buffer w
   \<and> status (CookiePrinter_Set w key val) = status w
   \<and> (cookie_String (CookiePrinter_cookie key val field) \<noteq> [] \<longrightarrow>
        Header_Values (header (CookiePrinter_SetField cookie_String w key val field)) ''Set-Cookie''
          \<noteq> Header_Values (header w) ''Set-Cookie'')"
  by (simp add: CookiePrinter_Set_def CookiePrinter_SetField_def http_SetCookie_def Header_Values_Add)

theorem CookiePrinter_Set_noop_witness:
  "CookiePrinter_Set NewResponseWriter ''token'' (GString ''access-token'') = NewResponseWriter
   \<and> Header_Values (header (CookiePrinter_Set NewResponseWriter ''token'' (GString ''access-token'')))
        ''Set-Cookie'' = []
   \<and> Header_Values
        (header (CookiePrinter_SetField (\<lambda>c. Name c @ ''='' @ Value c @ ''; Path='' @ Path c)
           NewResponseWriter ''token'' (GString ''access-token'')
           \<lparr>FieldName = ''Token'', Tag = [(''cookie'', ''token'')]\<rparr>))
        ''Set-Cookie'' \<noteq> []"
  using CookiePrinter_Set_noop
      [of NewResponseWriter "''token''" "GString ''access-token''"
          "\<lambda>c. Name c @ ''='' @ Value c @ ''; Path='' @ Path c"
          "\<lparr>FieldName = ''Token'', Tag = [(''cookie'', ''token'')]\<rparr>"]
  by (simp add: CookiePrinter_Set_def CookiePrinter_SetField_def http_SetCookie_def Header_Add_def
        Header_Values_def CookiePrinter_cookie_def Tag_Lookup_def Let_def NewResponseWriter_def
        canonical_Set_Cookie)

section \<open>Properties of the transcoding engine\<close>

subsection \<open>Comma-delimited sequences\<close>

lemma split_comma_not_Nil: "split_comma s \<noteq> []"
  by (induction s) (auto split: list.splits)

lemma format_sequence_Cons_char:
  "format_sequence ((c # x) # xs) = c # format_sequence (x # xs)"
  by (cases xs) simp_all

lemma format_sequence_Nil_Cons:
  "xs \<noteq> [] \<Longrightarrow> format_sequence ([] # xs) = CHR '','' # format_sequence xs"
  by (cases xs) simp_all

lemma format_split_comma: "format_sequence (split_comma s) = s"
proof (induction s)
  case Nil
  show ?case by simp
next
  case (Cons c cs)
  show ?case
  proof (cases "c = CHR '',''")
    case True
    then show ?thesis
      using Cons.IH by (simp add: format_sequence_Nil_Cons split_comma_not_Nil)
  next
    case False
    obtain x xs where sp: "split_comma cs = x # xs"
      using split_comma_not_Nil [of cs] by (cases "split_comma cs") auto
    with False Cons.IH show ?thesis
      by (simp add: format_sequence_Cons_char)
  qed
qed

lemma split_comma_no_comma: "CHR '','' \<notin> set x \<Longrightarrow> split_comma x = [x]"
  by (induction x) auto

lemma split_comma_append:
  "CHR '','' \<notin> set x \<Longrightarrow> split_comma (x @ CHR '','' # rest) = x # split_comma rest"
  by (induction x) auto

lemma split_format_sequence:
  "xs \<noteq> [] \<Longrightarrow> \<forall>x \<in> set xs. CHR '','' \<notin> set x \<Longrightarrow> split_comma (format_sequence xs) = xs"
proof (induction xs rule: format_sequence.induct)
  case 1
  then show ?case by simp
next
  case (2 x)
  then show ?case by (simp add: split_comma_no_comma)
next
  case (3 x y ys)
  then show ?case by (simp add: split_comma_append)
qed

lemma format_sequence_empty_iff: "format_sequence xs = [] \<longleftrightarrow> xs = [] \<or> xs = [[]]"
  by (induction xs rule: format_sequence.induct) auto

text \<open>
  C3. For a sequence of strings, decoding the empty text yields the sequence of length
  zero, decoding \<^verbatim>\<open>a,b,c\<close> yields the three elements \<^verbatim>\<open>a\<close>, \<^verbatim>\<open>b\<close>, \<^verbatim>\<open>c\<close> in this order, and
  encoding that sequence gives \<^verbatim>\<open>a,b,c\<close> back. In general, encoding what was decoded
  from a text gives the text back, and decoding what was encoded from a sequence gives
  the sequence back when no element contains a comma and the sequence is not the single
  empty string (which is encoded as the empty text).
\<close>

theorem sequence_round_trip:
  "convert_sequence [] = []
   \<and> length (convert_sequence []) = 0
   \<and> convert_sequence ''a,b,c'' = [''a'', ''b'', ''c'']
   \<and> format_sequence [''a'', ''b'', ''c''] = ''a,b,c''
   \<and> format_sequence (convert_sequence raw) = raw
   \<and> ((\<forall>x \<in> set xs. CHR '','' \<notin> set x) \<and> xs \<noteq> [[]]
        \<longrightarrow> convert_sequence (format_sequence xs) = xs)"
proof (intro conjI impI)
  show "convert_sequence [] = []" by (simp add: convert_sequence_def)
  then show "length (convert_sequence []) = 0" by simp
  show "convert_sequence ''a,b,c'' = [''a'', ''b'', ''c'']" by (simp add: convert_sequence_def)
  show "format_sequence [''a'', ''b'', ''c''] = ''a,b,c''" by simp
  show "format_sequence (convert_sequence raw) = raw"
    by (simp add: convert_sequence_def format_split_comma)
next
  assume h: "(\<forall>x \<in> set xs. CHR '','' \<notin> set x) \<and> xs \<noteq> [[]]"
  show "convert_sequence (format_sequence xs) = xs"
  proof (cases "xs = []")
    case True
    then show ?thesis by (simp add: convert_sequence_def)
  next
    case False
    with h have "format_sequence xs \<noteq> []" by (simp add: format_sequence_empty_iff)
    with False h show ?thesis by (simp add: convert_sequence_def split_format_sequence)
  qed
qed

theorem sequence_round_trip_witness:
  "format_sequence (convert_sequence ''6,7,8'') = ''6,7,8''
   \<and> convert_sequence (format_sequence [''sepia'', ''monochrome'']) = [''sepia'', ''monochrome'']
   \<and> convert_sequence ''6,7,8'' = [''6'', ''7'', ''8'']"
  using sequence_round_trip [of "''6,7,8''" "[''sepia'', ''monochrome'']"]
  by (simp add: convert_sequence_def)

subsection \<open>The decode driver\<close>

lemma decode_frame:
  "f \<notin> set (map name plan) \<Longrightarrow> snd (decode source policy r plan) f = r f"
  by (induction plan arbitrary: r) (auto split: option.splits sum.splits)

lemma decode_append:
  "decode source policy r pre = (None, r1) \<Longrightarrow>
   decode source policy r (pre @ rest) = decode source policy r1 rest"
  by (induction pre arbitrary: r) (auto split: option.splits sum.splits)

lemma decode_error_split:
  "decode source policy r plan = (Some err, r') \<Longrightarrow>
   \<exists>pre d post raw cause.
       plan = pre @ d # post
     \<and> decode source policy r pre = (None, r')
     \<and> source_get source (sourceKey d) = Some raw
     \<and> conversion source policy raw (category d) = Inl cause
     \<and> err = ConversionError (name d) (sourceKey d) cause"
proof (induction plan arbitrary: r)
  case Nil
  then show ?case by simp
next
  case (Cons d plan)
  show ?case
  proof (cases "source_get source (sourceKey d)")
    case None
    with Cons.prems have "decode source policy r plan = (Some err, r')" by simp
    from Cons.IH [OF this] obtain pre d' post raw cause where
      h: "plan = pre @ d' # post" "decode source policy r pre = (None, r')"
         "source_get source (sourceKey d') = Some raw"
         "conversion source policy raw (category d') = Inl cause"
         "err = ConversionError (name d') (sourceKey d') cause"
      by blast
    have "d # plan = (d # pre) @ d' # post" "decode source policy r (d # pre) = (None, r')"
      using h None by simp_all
    with h show ?thesis by blast
  next
    case (Some raw)
    show ?thesis
    proof (cases "conversion source policy raw (category d)")
      case (Inl cause)
      with Some Cons.prems have "err = ConversionError (name d) (sourceKey d) cause" "r' = r"
        by simp_all
      with Some Inl have "d # plan = [] @ d # plan \<and> decode source policy r [] = (None, r')
          \<and> source_get source (sourceKey d) = Some raw
          \<and> conversion source policy raw (category d) = Inl cause
          \<and> err = ConversionError (name d) (sourceKey d) cause"
        by simp
      then show ?thesis by blast
    next
      case (Inr v)
      with Some Cons.prems have "decode source policy (r(name d := v)) plan = (Some err, r')" by simp
      from Cons.IH [OF this] obtain pre d' post raw' cause where
        h: "plan = pre @ d' # post" "decode source policy (r(name d := v)) pre = (None, r')"
           "source_get source (sourceKey d') = Some raw'"
           "conversion source policy raw' (category d') = Inl cause"
           "err = ConversionError (name d') (sourceKey d') cause"
        by blast
      have "d # plan = (d # pre) @ d' # post" "decode source policy r (d # pre) = (None, r')"
        using h Some Inr by simp_all
      with h show ?thesis by blast
    qed
  qed
qed

text \<open>
  After a decode that returned nil over a plan with distinct field names, a field whose
  key the source has holds the converted value, and a field whose key is absent holds
  what it held before.
\<close>

lemma decode_ok_fields:
  "decode source policy r plan = (None, r') \<Longrightarrow> distinct (map name plan) \<Longrightarrow> d \<in> set plan \<Longrightarrow>
   (case source_get source (sourceKey d) of
      None \<Rightarrow> r' (name d) = r (name d)
    | Some raw \<Rightarrow> conversion source policy raw (category d) = Inr (r' (name d)))"
proof (induction plan arbitrary: r)
  case Nil
  then show ?case by simp
next
  case (Cons d0 plan)
  show ?case
  proof (cases "d = d0")
    case True
    have notin: "name d0 \<notin> set (map name plan)" using Cons.prems(2) by simp
    show ?thesis
    proof (cases "source_get source (sourceKey d0)")
      case None
      with Cons.prems(1) have "decode source policy r plan = (None, r')" by simp
      with decode_frame [OF notin, of source policy r] have "r' (name d0) = r (name d0)" by simp
      with None True show ?thesis by simp
    next
      case (Some raw)
      with Cons.prems(1) obtain v where
        v: "conversion source policy raw (category d0) = Inr v"
           "decode source policy (r(name d0 := v)) plan = (None, r')"
        by (auto split: sum.splits)
      with decode_frame [OF notin, of source policy "r(name d0 := v)"] have "r' (name d0) = v" by simp
      with Some True v show ?thesis by simp
    qed
  next
    case False
    with Cons.prems have din: "d \<in> set plan" and dist: "distinct (map name plan)"
      by simp_all
    have "name d \<in> name ` set plan" using din by (rule imageI)
    moreover have "name d0 \<notin> name ` set plan" using Cons.prems(2) by simp
    ultimately have ne: "name d \<noteq> name d0" by metis
    show ?thesis
    proof (cases "source_get source (sourceKey d0)")
      case None
      with Cons.prems(1) have "decode source policy r plan = (None, r')" by simp
      from Cons.IH [OF this dist din] show ?thesis .
    next
      case (Some raw)
      with Cons.prems(1) obtain v where
        v: "decode source policy (r(name d0 := v)) plan = (None, r')"
        by (auto split: sum.splits)
      from Cons.IH [OF v dist din] ne show ?thesis by (auto split: option.splits)
    qed
  qed
qed

text \<open>
  C4. Decode returns an error exactly when the plan has a descriptor whose raw value fails
  conversion after a prefix that decoded without error. It stops there: the error names
  the field, the source key and the cause of that descriptor, whatever follows it in the
  plan, and the record returned is the record as the prefix left it, nothing rolled back:
  with distinct field names, every field of the prefix that the source has a value for
  holds its converted value.
\<close>

theorem decode_fails_fast:
  "(decode source policy r plan = (Some err, r') \<longleftrightarrow>
      (\<exists>pre d post raw cause.
          plan = pre @ d # post
        \<and> decode source policy r pre = (None, r')
        \<and> source_get source (sourceKey d) = Some raw
        \<and> conversion source policy raw (category d) = Inl cause
        \<and> err = ConversionError (name d) (sourceKey d) cause))
   \<and> (decode source policy r pre = (None, r1) \<and> distinct (map name pre) \<longrightarrow>
        (\<forall>a \<in> set pre. case source_get source (sourceKey a) of
            None \<Rightarrow> r1 (name a) = r (name a)
          | Some raw_a \<Rightarrow> conversion source policy raw_a (category a) = Inr (r1 (name a))))"
proof (intro conjI iffI impI ballI)
  assume "decode source policy r plan = (Some err, r')"
  then show "\<exists>pre d post raw cause.
          plan = pre @ d # post
        \<and> decode source policy r pre = (None, r')
        \<and> source_get source (sourceKey d) = Some raw
        \<and> conversion source policy raw (category d) = Inl cause
        \<and> err = ConversionError (name d) (sourceKey d) cause"
    by (rule decode_error_split)
next
  assume "\<exists>pre d post raw cause.
          plan = pre @ d # post
        \<and> decode source policy r pre = (None, r')
        \<and> source_get source (sourceKey d) = Some raw
        \<and> conversion source policy raw (category d) = Inl cause
        \<and> err = ConversionError (name d) (sourceKey d) cause"
  then obtain pre d post raw cause where
    h: "plan = pre @ d # post" "decode source policy r pre = (None, r')"
       "source_get source (sourceKey d) = Some raw"
       "conversion source policy raw (category d) = Inl cause"
       "err = ConversionError (name d) (sourceKey d) cause"
    by blast
  from decode_append [OF h(2), of "d # post"] h
  show "decode source policy r plan = (Some err, r')" by simp
next
  fix a
  assume "decode source policy r pre = (None, r1) \<and> distinct (map name pre)" and "a \<in> set pre"
  then show "case source_get source (sourceKey a) of
            None \<Rightarrow> r1 (name a) = r (name a)
          | Some raw_a \<Rightarrow> conversion source policy raw_a (category a) = Inr (r1 (name a))"
    using decode_ok_fields by blast
qed

theorem decode_fails_fast_witness:
  "decode \<lparr>source_get = [''done'' \<mapsto> ''true'', ''flag'' \<mapsto> ''abc'', ''last'' \<mapsto> ''false''],
           source_cast = None\<rparr>
      convert_boolean (\<lambda>_. False)
      [\<lparr>name = ''Done'', sourceKey = ''done'', category = ScalarBoolean, attributes = []\<rparr>,
       \<lparr>name = ''Flag'', sourceKey = ''flag'', category = ScalarBoolean, attributes = []\<rparr>,
       \<lparr>name = ''Last'', sourceKey = ''last'', category = ScalarBoolean, attributes = []\<rparr>]
     = (Some (ConversionError ''Flag'' ''flag'' ''not a boolean literal: abc''),
        (\<lambda>_. False)(''Done'' := True))
   \<and> conversion \<lparr>source_get = [''done'' \<mapsto> ''true'', ''flag'' \<mapsto> ''abc'', ''last'' \<mapsto> ''false''],
           source_cast = None\<rparr> convert_boolean ''true'' ScalarBoolean
       = Inr (((\<lambda>_. False)(''Done'' := True)) ''Done'')"
proof -
  let ?src = "\<lparr>source_get = [''done'' \<mapsto> ''true'', ''flag'' \<mapsto> ''abc'', ''last'' \<mapsto> ''false''],
           source_cast = None :: (string \<Rightarrow> typeCategory \<Rightarrow> string + bool) option\<rparr>"
  let ?done = "\<lparr>name = ''Done'', sourceKey = ''done'', category = ScalarBoolean, attributes = []\<rparr>"
  let ?flag = "\<lparr>name = ''Flag'', sourceKey = ''flag'', category = ScalarBoolean, attributes = []\<rparr>"
  let ?last = "\<lparr>name = ''Last'', sourceKey = ''last'', category = ScalarBoolean, attributes = []\<rparr>"
  let ?r1 = "(\<lambda>_. False)(''Done'' := True)"
  note inst = decode_fails_fast [of ?src convert_boolean "\<lambda>_. False" "[?done, ?flag, ?last]"
      "ConversionError ''Flag'' ''flag'' ''not a boolean literal: abc''" ?r1 "[?done]" ?r1]
  have pre: "decode ?src convert_boolean (\<lambda>_. False) [?done] = (None, ?r1)"
    by (simp add: conversion_def convert_boolean_def)
  have "\<exists>pre d post raw cause.
          [?done, ?flag, ?last] = pre @ d # post
        \<and> decode ?src convert_boolean (\<lambda>_. False) pre = (None, ?r1)
        \<and> source_get ?src (sourceKey d) = Some raw
        \<and> conversion ?src convert_boolean raw (category d) = Inl cause
        \<and> ConversionError ''Flag'' ''flag'' ''not a boolean literal: abc''
            = ConversionError (name d) (sourceKey d) cause"
    apply (rule exI [of _ "[?done]"])
    apply (rule exI [of _ ?flag])
    apply (rule exI [of _ "[?last]"])
    apply (rule exI [of _ "''abc''"])
    apply (rule exI [of _ "''not a boolean literal: abc''"])
    apply (simp add: conversion_def convert_boolean_def)
    done
  with inst have run: "decode ?src convert_boolean (\<lambda>_. False) [?done, ?flag, ?last]
      = (Some (ConversionError ''Flag'' ''flag'' ''not a boolean literal: abc''), ?r1)"
    by blast
  from inst pre have "\<forall>a \<in> set [?done]. case source_get ?src (sourceKey a) of
            None \<Rightarrow> ?r1 (name a) = False
          | Some raw_a \<Rightarrow> conversion ?src convert_boolean raw_a (category a) = Inr (?r1 (name a))"
    by simp
  then have "conversion ?src convert_boolean ''true'' ScalarBoolean = Inr (?r1 ''Done'')"
    by simp
  with run show ?thesis by simp
qed

subsection \<open>Skipped fields\<close>

lemma build_fields_names:
  "build_fields categorise skip namespace decls = Inr plan \<Longrightarrow> d \<in> set plan \<Longrightarrow>
   \<exists>g \<in> set decls. declName g = name d
      \<and> (\<exists>key. map_of (declTags g) namespace = Some key \<and> key \<noteq> skip)"
proof (induction decls arbitrary: plan)
  case Nil
  then show ?case by simp
next
  case (Cons f fs)
  show ?case
  proof (cases "map_of (declTags f) namespace")
    case None
    with Cons.prems have "build_fields categorise skip namespace fs = Inr plan" by simp
    from Cons.IH [OF this Cons.prems(2)] show ?thesis by auto
  next
    case (Some key)
    show ?thesis
    proof (cases "key = skip")
      case True
      with Some Cons.prems have "build_fields categorise skip namespace fs = Inr plan" by simp
      from Cons.IH [OF this Cons.prems(2)] show ?thesis by auto
    next
      case False
      with Some Cons.prems(1) obtain c ds where
        c: "categorise (declType f) = Some c"
        and ds: "build_fields categorise skip namespace fs = Inr ds"
        and plan: "plan = \<lparr>name = declName f, sourceKey = key, category = c,
                     attributes = filter (\<lambda>(k, v). is_attribute namespace k) (declTags f)\<rparr> # ds"
        by (auto split: option.splits sum.splits)
      show ?thesis
      proof (cases "d \<in> set ds")
        case True
        from Cons.IH [OF ds True] show ?thesis by auto
      next
        case notin: False
        with plan Cons.prems(2) have "name d = declName f" by auto
        with Some False show ?thesis by auto
      qed
    qed
  qed
qed

lemma encode_calls_names:
  "call \<in> set (snd (encode has_setField format r plan)) \<Longrightarrow> fst call \<in> set (map name plan)"
  by (induction plan arbitrary: call) (auto split: sum.splits prod.splits)

lemma skipped_not_in_plan:
  assumes "build categorise skip (Composite decls) namespace = Inr plan"
    and "distinct (map declName decls)"
    and "f \<in> set decls"
    and "map_of (declTags f) namespace = None \<or> map_of (declTags f) namespace = Some skip"
  shows "declName f \<notin> set (map name plan)"
proof
  assume "declName f \<in> set (map name plan)"
  then obtain d where d: "d \<in> set plan" "name d = declName f" by auto
  from assms(1) have "build_fields categorise skip namespace decls = Inr plan" by simp
  from build_fields_names [OF this d(1)] obtain g key where
    g: "g \<in> set decls" "declName g = name d" "map_of (declTags g) namespace = Some key" "key \<noteq> skip"
    by blast
  from g(1,2) d(2) assms(2,3) have "g = f"
    by (simp add: distinct_map inj_on_def)
  with g assms(4) show False by auto
qed

text \<open>
  C5. For every record type with distinct field names and every namespace: when a
  field's tag for the namespace is absent or is the skip marker, the plan built for the
  namespace makes decoding from any source leave that field as it was (at its zero value,
  when the record was a fresh one), also when decoding stops with an error, and makes
  encoding call the sink for no descriptor of that field.
\<close>

theorem skipped_field_untouched:
  assumes "build categorise skip (Composite decls) namespace = Inr plan"
    and "distinct (map declName decls)"
    and "f \<in> set decls"
    and "map_of (declTags f) namespace = None \<or> map_of (declTags f) namespace = Some skip"
  shows "snd (decode source policy r plan) (declName f) = r (declName f)
       \<and> (\<forall>call \<in> set (snd (encode has_setField format r plan)). fst call \<noteq> declName f)"
proof -
  have notin: "declName f \<notin> set (map name plan)"
    using assms by (rule skipped_not_in_plan)
  have "snd (decode source policy r plan) (declName f) = r (declName f)"
    using notin by (rule decode_frame)
  moreover have "\<forall>call \<in> set (snd (encode has_setField format r plan)). fst call \<noteq> declName f"
    using notin encode_calls_names by metis
  ultimately show ?thesis by simp
qed

theorem skipped_field_untouched_witness:
  "build (\<lambda>_. Some ScalarBoolean) ''-''
     (Composite
       [\<lparr>declName = ''Email'', declType = (), declTags = [(''json'', ''email'')]\<rparr>,
        \<lparr>declName = ''Done'', declType = (), declTags = [(''json'', ''-''), (''header'', ''x-done'')]\<rparr>,
        \<lparr>declName = ''Secret'', declType = (), declTags = [(''header'', ''-'')]\<rparr>])
     ''header''
     = Inr [\<lparr>name = ''Done'', sourceKey = ''x-done'', category = ScalarBoolean, attributes = []\<rparr>]
   \<and> snd (decode \<lparr>source_get = (\<lambda>key. Some ''true''), source_cast = None\<rparr> convert_boolean (\<lambda>_. False)
        [\<lparr>name = ''Done'', sourceKey = ''x-done'', category = ScalarBoolean, attributes = []\<rparr>]) ''Secret''
       = False
   \<and> snd (decode \<lparr>source_get = (\<lambda>key. Some ''true''), source_cast = None\<rparr> convert_boolean (\<lambda>_. False)
        [\<lparr>name = ''Done'', sourceKey = ''x-done'', category = ScalarBoolean, attributes = []\<rparr>]) ''Email''
       = False
   \<and> snd (decode \<lparr>source_get = (\<lambda>key. Some ''true''), source_cast = None\<rparr> convert_boolean (\<lambda>_. False)
        [\<lparr>name = ''Done'', sourceKey = ''x-done'', category = ScalarBoolean, attributes = []\<rparr>]) ''Done''
       = True
   \<and> snd (encode False (\<lambda>d b. Inr (if b then ''true'' else ''false'') :: string + string) (\<lambda>_. True)
        [\<lparr>name = ''Done'', sourceKey = ''x-done'', category = ScalarBoolean, attributes = []\<rparr>])
       = [(''Done'', SetCall ''x-done'' ''true'')]"
proof -
  let ?email = "\<lparr>declName = ''Email'', declType = (), declTags = [(''json'', ''email'')]\<rparr>"
  let ?done = "\<lparr>declName = ''Done'', declType = (), declTags = [(''json'', ''-''), (''header'', ''x-done'')]\<rparr>"
  let ?secret = "\<lparr>declName = ''Secret'', declType = (), declTags = [(''header'', ''-'')]\<rparr>"
  let ?plan = "[\<lparr>name = ''Done'', sourceKey = ''x-done'', category = ScalarBoolean, attributes = []\<rparr>]"
  let ?src = "\<lparr>source_get = (\<lambda>key. Some ''true''),
                source_cast = None :: (string \<Rightarrow> typeCategory \<Rightarrow> string + bool) option\<rparr>"
  let ?fmt = "\<lambda>d b. Inr (if b then ''true'' else ''false'') :: string + string"
  have built: "build (\<lambda>_. Some ScalarBoolean) ''-'' (Composite [?email, ?done, ?secret]) ''header'' = Inr ?plan"
    by (simp add: is_attribute_def)
  have dist: "distinct (map declName [?email, ?done, ?secret])" by simp
  have secret: "?secret \<in> set [?email, ?done, ?secret]"
               "map_of (declTags ?secret) ''header'' = None \<or> map_of (declTags ?secret) ''header'' = Some ''-''"
    by simp_all
  have email: "?email \<in> set [?email, ?done, ?secret]"
               "map_of (declTags ?email) ''header'' = None \<or> map_of (declTags ?email) ''header'' = Some ''-''"
    by simp_all
  from skipped_field_untouched [OF built dist secret, of ?src convert_boolean "\<lambda>_. False" False ?fmt]
  have s: "snd (decode ?src convert_boolean (\<lambda>_. False) ?plan) ''Secret'' = False" by simp
  from skipped_field_untouched [OF built dist email, of ?src convert_boolean "\<lambda>_. False" False ?fmt]
  have e: "snd (decode ?src convert_boolean (\<lambda>_. False) ?plan) ''Email'' = False" by simp
  have d: "snd (decode ?src convert_boolean (\<lambda>_. False) ?plan) ''Done'' = True"
    by (simp add: conversion_def convert_boolean_def)
  have c: "snd (encode False ?fmt (\<lambda>_. True) ?plan) = [(''Done'', SetCall ''x-done'' ''true'')]"
    by simp
  from built s e d c show ?thesis by simp
qed

end
